theory Spec2Isabelle
  imports Main "HOL-Library.Sublist"
begin

section \<open>The HTTP front end of GoWork/http/server.go\<close>

text \<open>
  The development follows \<^verbatim>\<open>GoWork/http/server.go\<close> and \<^verbatim>\<open>GoWork/http/pkg.go\<close>.
  A Go \<^verbatim>\<open>string\<close> is a byte list, the \<^verbatim>\<open>Server\<close> struct is a record, a nil
  interface or a nil \<^verbatim>\<open>error\<close> is \<open>None\<close>, and every method that assigns to a field
  of its receiver returns the receiver next to its result. The operating system, which
  decides what \<^verbatim>\<open>net.Listen\<close> answers, and the connections that other goroutines
  change while \<^verbatim>\<open>Close\<close> waits are arguments of the operations that meet them.
\<close>

subsection \<open>Errors, listeners and the serving engine\<close>

text \<open>
  The errors that reach this package: \<^verbatim>\<open>*net.OpError\<close> (what \<^verbatim>\<open>net.Listen\<close> returns
  for an address that is invalid or in use, with its text) and
  \<^verbatim>\<open>context.DeadlineExceeded\<close> (the \<^verbatim>\<open>Err()\<close> of a context whose timeout has passed).
\<close>

datatype error = OpError string | DeadlineExceeded

text \<open>
  A \<^verbatim>\<open>net.Listener\<close> is either the TCP listener of \<^verbatim>\<open>net.Listen\<close>, bound to a port,
  or the listener of \<^verbatim>\<open>autocert.NewListener\<close>. The latter calls
  \<^verbatim>\<open>net.Listen("tcp", ":443")\<close> itself and keeps the outcome in its fields
  \<^verbatim>\<open>tcpListener\<close> and \<^verbatim>\<open>tcpListenErr\<close>; it hands the error out only from
  \<^verbatim>\<open>Accept\<close> and \<^verbatim>\<open>Close\<close>.
\<close>

datatype listener = TCPListener int | AutocertListener "error + int"

text \<open>The operating system: network and address to an error or the port that was bound.\<close>

type_synonym os = "string \<Rightarrow> string \<Rightarrow> error + int"

definition net_Listen :: "os \<Rightarrow> string \<Rightarrow> string \<Rightarrow> error + listener" where
  "net_Listen sys network address =
     (case sys network address of Inl e \<Rightarrow> Inl e | Inr p \<Rightarrow> Inr (TCPListener p))"

definition autocert_NewListener :: "os \<Rightarrow> string \<Rightarrow> listener" where
  "autocert_NewListener sys domain = AutocertListener (sys ''tcp'' '':443'')"

text \<open>
  \<^verbatim>\<open>ln.Addr().(*net.TCPAddr).Port\<close>. The autocert listener answers with the address of
  its TCP listener, and with port 443 when \<^verbatim>\<open>net.Listen\<close> had failed.
\<close>

fun listener_Port :: "listener \<Rightarrow> int" where
  "listener_Port (TCPListener p) = p"
| "listener_Port (AutocertListener (Inr p)) = p"
| "listener_Port (AutocertListener (Inl e)) = 443"

fun listener_Close :: "listener \<Rightarrow> error option" where
  "listener_Close (TCPListener p) = None"
| "listener_Close (AutocertListener (Inr p)) = None"
| "listener_Close (AutocertListener (Inl e)) = Some e"

text \<open>
  The part of \<^verbatim>\<open>net/http.Server\<close> that \<^verbatim>\<open>Shutdown\<close> reads and writes: the mark
  that shutdown has begun, the listeners being served and the open connections, each
  as \<^verbatim>\<open>closeIdleConns\<close> judges it: idle, or busy.
\<close>

datatype connState = StateIdle | StateActive

record http_Server =
  inShutdown :: bool
  listeners :: "listener list"
  activeConn :: "connState list"

subsection \<open>The router\<close>

text \<open>
  The \<^verbatim>\<open>mux.Router\<close> is the table of registered routes. Matching a request against
  it belongs to the router package; this package only fills the table and hands every
  request to it.
\<close>

datatype handler = handleHelloWorld

record route =
  route_path :: string
  route_methods :: "string list"
  route_handler :: handler

type_synonym mux_Router = "route list"

definition registerPkgRoutes :: "mux_Router \<Rightarrow> mux_Router" where
  "registerPkgRoutes r =
     r @ [\<lparr>route_path = ''/helloworld'', route_methods = [''GET''],
           route_handler = handleHelloWorld\<rparr>]"

subsection \<open>The Server\<close>

text \<open>
  \<^verbatim>\<open>ShutdownTimeout\<close> is \<^verbatim>\<open>1 * time.Second\<close>, a duration in nanoseconds. The fields
  \<^verbatim>\<open>server\<close> and \<^verbatim>\<open>router\<close> are set by \<^verbatim>\<open>NewServer\<close> and assigned nowhere
  else, so the record holds the engine and the router themselves.
\<close>

definition ShutdownTimeout :: int where
  "ShutdownTimeout = 1 * 1000000000"

record Server =
  ln :: "listener option"
  server :: http_Server
  router :: mux_Router
  Addr :: string
  Domain :: string
  HashKey :: string
  BlockKey :: string

definition NewServer :: Server where
  "NewServer =
     \<lparr>ln = None,
      server = \<lparr>inShutdown = False, listeners = [], activeConn = []\<rparr>,
      router = registerPkgRoutes [],
      Addr = '''', Domain = '''', HashKey = '''', BlockKey = ''''\<rparr>"

definition UseTLS :: "Server \<Rightarrow> bool" where
  "UseTLS s = (Domain s \<noteq> '''')"

definition Scheme :: "Server \<Rightarrow> string" where
  "Scheme s = (if UseTLS s then ''https'' else ''http'')"

definition Port :: "Server \<Rightarrow> int" where
  "Port s = (case ln s of None \<Rightarrow> 0 | Some l \<Rightarrow> listener_Port l)"

text \<open>
  The verb \<^verbatim>\<open>%d\<close> of \<^verbatim>\<open>fmt.Sprintf\<close> on an \<^verbatim>\<open>int\<close>: the decimal digits, most
  significant first, after a minus sign for a negative number.
\<close>

fun fmt_digits :: "nat \<Rightarrow> string" where
  "fmt_digits n =
     (if n < 10 then [''0123456789'' ! n]
      else fmt_digits (n div 10) @ [''0123456789'' ! (n mod 10)])"

declare fmt_digits.simps [simp del]

definition fmt_d :: "int \<Rightarrow> string" where
  "fmt_d i = (if i < 0 then CHR ''-'' # fmt_digits (nat (- i)) else fmt_digits (nat i))"

definition URL :: "Server \<Rightarrow> string" where
  "URL s =
     (let scheme = Scheme s; port = Port s;
          domain = (if Domain s \<noteq> '''' then Domain s else ''localhost'')
      in if (scheme = ''http'' \<and> port = 80) \<or> (scheme = ''https'' \<and> port = 443)
         then Scheme s @ ''://'' @ domain
         else Scheme s @ ''://'' @ domain @ '':'' @ fmt_d (Port s))"

subsection \<open>Opening and closing\<close>

text \<open>
  \<^verbatim>\<open>Open\<close> assigns \<^verbatim>\<open>s.ln\<close> and starts \<^verbatim>\<open>s.server.Serve(s.ln)\<close> with a
  \<^verbatim>\<open>go\<close> statement. The goroutine runs on its own, so the model returns it as
  started work next to the error and the receiver; nothing it does later is part of
  what \<^verbatim>\<open>Open\<close> returns. A failed \<^verbatim>\<open>net.Listen\<close> returns a nil listener with its
  error, and the assignment stores that nil.
\<close>

datatype goroutine = go_Serve listener

definition Open :: "os \<Rightarrow> Server \<Rightarrow> error option \<times> Server \<times> goroutine list" where
  "Open sys s =
     (if Domain s \<noteq> '''' then
        (let l = autocert_NewListener sys (Domain s)
         in (None, s\<lparr>ln := Some l\<rparr>, [go_Serve l]))
      else
        (case net_Listen sys ''tcp'' (Addr s) of
           Inl err \<Rightarrow> (Some err, s\<lparr>ln := None\<rparr>, [])
         | Inr l \<Rightarrow> (None, s\<lparr>ln := Some l\<rparr>, [go_Serve l])))"

text \<open>
  \<^verbatim>\<open>Shutdown\<close> of \<^verbatim>\<open>net/http\<close> marks the engine, closes the listeners it serves
  (keeping the first error), and then polls: \<^verbatim>\<open>closeIdleConns\<close> closes the idle
  connections and reports whether none is left busy; if one is, \<^verbatim>\<open>Shutdown\<close> sleeps
  until its timer ticks or the context is done, whichever comes first. The connections
  change while it sleeps, so the third argument of \<open>shutdown_wait\<close> lists the
  connection tables found at the ticks that come before the context is done.
\<close>

fun closeListenersLocked :: "listener list \<Rightarrow> error option" where
  "closeListenersLocked [] = None"
| "closeListenersLocked (l # ls) =
     (case listener_Close l of
        Some cerr \<Rightarrow> Some cerr
      | None \<Rightarrow> closeListenersLocked ls)"

definition closeIdleConns :: "connState list \<Rightarrow> bool \<times> connState list" where
  "closeIdleConns conns =
     (list_all (\<lambda>st. st = StateIdle) conns, filter (\<lambda>st. st \<noteq> StateIdle) conns)"

fun shutdown_wait ::
  "error option \<Rightarrow> connState list \<Rightarrow> connState list list \<Rightarrow> error option \<times> connState list"
where
  "shutdown_wait lnerr conns [] =
     (if fst (closeIdleConns conns) then (lnerr, snd (closeIdleConns conns))
      else (Some DeadlineExceeded, snd (closeIdleConns conns)))"
| "shutdown_wait lnerr conns (later # ticks) =
     (if fst (closeIdleConns conns) then (lnerr, snd (closeIdleConns conns))
      else shutdown_wait lnerr later ticks)"

definition Shutdown :: "http_Server \<Rightarrow> connState list list \<Rightarrow> error option \<times> http_Server" where
  "Shutdown srv ticks =
     (let srv1 = srv\<lparr>inShutdown := True\<rparr>;
          lnerr = closeListenersLocked (listeners srv1);
          r = shutdown_wait lnerr (activeConn srv1) ticks
      in (fst r, srv1\<lparr>activeConn := snd r\<rparr>))"

text \<open>
  \<^verbatim>\<open>Close\<close> builds a context with the timeout \<^verbatim>\<open>ShutdownTimeout\<close> and shuts the
  engine down under it. The argument \<open>clock\<close> says, for a timeout in nanoseconds, which
  connection tables the polls find before that timeout has passed.
\<close>

type_synonym clock = "int \<Rightarrow> connState list list"

definition Close :: "Server \<Rightarrow> clock \<Rightarrow> error option \<times> Server" where
  "Close s clock =
     (let r = Shutdown (server s) (clock ShutdownTimeout)
      in (fst r, s\<lparr>server := snd r\<rparr>))"

subsection \<open>The request normalizer\<close>

text \<open>
  Of an \<^verbatim>\<open>http.Request\<close> the normalizer reads and writes the method, the path of the
  URL and the header; \<open>PostForm\<close> is the form that \<^verbatim>\<open>PostFormValue\<close> parses out of
  the body. Header and form are Go maps from a key to its list of values.
\<close>

record Request =
  Method :: string
  URL_Path :: string
  Header :: "string \<rightharpoonup> string list"
  PostForm :: "string \<rightharpoonup> string list"

definition PostFormValue :: "Request \<Rightarrow> string \<Rightarrow> string" where
  "PostFormValue r key =
     (case PostForm r key of None \<Rightarrow> '''' | Some [] \<Rightarrow> '''' | Some (v # vs) \<Rightarrow> v)"

text \<open>
  \<^verbatim>\<open>path.Ext\<close> walks back from the last byte up to the nearest slash and returns the
  path from the first dot it meets; \<open>ext_scan\<close> is that loop, over the bytes not yet
  visited (last first) and the bytes already passed.
\<close>

fun ext_scan :: "string \<Rightarrow> string \<Rightarrow> string" where
  "ext_scan [] passed = ''''"
| "ext_scan (c # cs) passed =
     (if c = CHR ''/'' then ''''
      else if c = CHR ''.'' then c # passed
      else ext_scan cs (c # passed))"

definition path_Ext :: "string \<Rightarrow> string" where
  "path_Ext p = ext_scan (rev p) []"

definition HasSuffix :: "string \<Rightarrow> string \<Rightarrow> bool" where
  "HasSuffix s suf = (length s \<ge> length suf \<and> drop (length s - length suf) s = suf)"

definition TrimSuffix :: "string \<Rightarrow> string \<Rightarrow> string" where
  "TrimSuffix s suf = (if HasSuffix s suf then take (length s - length suf) s else s)"

text \<open>
  \<^verbatim>\<open>Header.Set\<close> stores under the canonical form of the key:
  \<^verbatim>\<open>textproto.CanonicalMIMEHeaderKey\<close> leaves a key with a byte that is no token
  character as it is, and otherwise makes the first letter and every letter after a
  hyphen upper case and the others lower case.
\<close>

definition validHeaderFieldByte :: "char \<Rightarrow> bool" where
  "validHeaderFieldByte c =
     (let n = (of_char c :: nat)
      in (48 \<le> n \<and> n \<le> 57) \<or> (65 \<le> n \<and> n \<le> 90) \<or> (97 \<le> n \<and> n \<le> 122)
         \<or> n \<in> {33, 35, 36, 37, 38, 39, 42, 43, 45, 46, 94, 95, 96, 124, 126})"

fun canonical_case :: "bool \<Rightarrow> string \<Rightarrow> string" where
  "canonical_case upper [] = []"
| "canonical_case upper (c # cs) =
     (let n = (of_char c :: nat);
          c' = (if upper \<and> 97 \<le> n \<and> n \<le> 122 then char_of (n - 32)
                else if \<not> upper \<and> 65 \<le> n \<and> n \<le> 90 then char_of (n + 32)
                else c)
      in c' # canonical_case (c' = CHR ''-'') cs)"

definition CanonicalMIMEHeaderKey :: "string \<Rightarrow> string" where
  "CanonicalMIMEHeaderKey s =
     (if list_all validHeaderFieldByte s then canonical_case True s else s)"

definition Header_Set ::
  "(string \<rightharpoonup> string list) \<Rightarrow> string \<Rightarrow> string \<Rightarrow> (string \<rightharpoonup> string list)" where
  "Header_Set h key v = h(CanonicalMIMEHeaderKey key \<mapsto> [v])"

text \<open>
  \<^verbatim>\<open>serveHTTP\<close> rewrites the request in two steps, the method and then the
  extension, and calls \<^verbatim>\<open>s.router.ServeHTTP(w, r)\<close>. The model returns that call:
  the router and the request it is given.
\<close>

definition override_method :: "Request \<Rightarrow> Request" where
  "override_method r =
     (if Method r = ''POST'' then
        (let v = PostFormValue r ''_method''
         in if v = ''GET'' \<or> v = ''POST'' \<or> v = ''PATCH'' \<or> v = ''DELETE''
            then r\<lparr>Method := v\<rparr> else r)
      else r)"

definition negotiate_ext :: "Request \<Rightarrow> Request" where
  "negotiate_ext r =
     (let ext = path_Ext (URL_Path r)
      in if ext = ''.json'' then
           r\<lparr>Header := Header_Set (Header_Set (Header r) ''Accept'' ''application/json'')
                          ''Content-type'' ''application/json'',
             URL_Path := TrimSuffix (URL_Path r) ext\<rparr>
         else if ext = ''.csv'' then
           r\<lparr>Header := Header_Set (Header r) ''Accept'' ''text/csv'',
             URL_Path := TrimSuffix (URL_Path r) ext\<rparr>
         else r)"

definition serveHTTP :: "Server \<Rightarrow> Request \<Rightarrow> mux_Router \<times> Request" where
  "serveHTTP s r = (router s, negotiate_ext (override_method r))"

text \<open>
  The handler of \<^verbatim>\<open>pkg.go\<close> prints one line on the standard output and writes nothing
  into the response; the model returns what is printed.
\<close>

fun run_handler :: "handler \<Rightarrow> Server \<Rightarrow> Request \<Rightarrow> string" where
  "run_handler handleHelloWorld s r = ''Hello World!'' @ [CHR 0x0A]"

subsection \<open>The engine after shutdown, and the timer of Shutdown\<close>


text \<open>
  Between two polls \<^verbatim>\<open>Shutdown\<close> sleeps for \<^verbatim>\<open>nextPollInterval()\<close>: the base
  interval, plus a random tenth of it at most; the base starts at a millisecond and
  doubles after every call up to \<^verbatim>\<open>shutdownPollIntervalMax\<close>, half a second. Durations
  are nanoseconds, \<open>k\<close> counts the calls, and \<open>jitter k\<close> is the \<open>k\<close>-th random number
  drawn, which \<^verbatim>\<open>rand.Intn\<close> reduces below its bound.
\<close>

definition shutdownPollIntervalMax :: int where
  "shutdownPollIntervalMax = 500 * 1000000"

primrec pollIntervalBase :: "nat \<Rightarrow> int" where
  "pollIntervalBase 0 = 1000000"
| "pollIntervalBase (Suc k) =
     (if 2 * pollIntervalBase k > shutdownPollIntervalMax then shutdownPollIntervalMax
      else 2 * pollIntervalBase k)"

definition nextPollInterval :: "(nat \<Rightarrow> nat) \<Rightarrow> nat \<Rightarrow> int" where
  "nextPollInterval jitter k =
     pollIntervalBase k + int (jitter k mod nat (pollIntervalBase k div 10))"

text \<open>
  The first poll comes at once. The timer then ticks after the first interval and is
  set again at every tick; a tick counts as long as it comes before the deadline of the
  context, and at the deadline \<^verbatim>\<open>Shutdown\<close> gives up. \<open>ticks_from\<close> lists the times,
  counted from the call of \<^verbatim>\<open>Close\<close>, of the ticks before the deadline, and
  \<open>timer_clock\<close> is the clock of a world whose connection table at every time is given.
\<close>

function ticks_from :: "int \<Rightarrow> (nat \<Rightarrow> nat) \<Rightarrow> nat \<Rightarrow> int \<Rightarrow> int list" where
  "ticks_from deadline jitter k t =
     (if t + nextPollInterval jitter k < deadline
      then (t + nextPollInterval jitter k)
             # ticks_from deadline jitter (Suc k) (t + nextPollInterval jitter k)
      else [])"
  by pat_completeness auto
termination
proof (relation "measure (\<lambda>(deadline, jitter, k, t). nat (deadline - t))")
  show "wf (measure (\<lambda>(deadline, jitter, k, t). nat (deadline - t)))" by simp
next
  fix deadline :: int and jitter :: "nat \<Rightarrow> nat" and k :: nat and t :: int
  assume before: "t + nextPollInterval jitter k < deadline"
  have "0 < pollIntervalBase k"
    by (induction k) (simp_all add: shutdownPollIntervalMax_def)
  then have "0 < nextPollInterval jitter k" by (simp add: nextPollInterval_def)
  with before
  show "((deadline, jitter, Suc k, t + nextPollInterval jitter k), (deadline, jitter, k, t))
          \<in> measure (\<lambda>(deadline, jitter, k, t). nat (deadline - t))"
    by simp
qed

declare ticks_from.simps [simp del]

definition timer_clock :: "(int \<Rightarrow> connState list) \<Rightarrow> (nat \<Rightarrow> nat) \<Rightarrow> clock" where
  "timer_clock world jitter timeout = map world (ticks_from timeout jitter 0 0)"

subsection \<open>Servers that differ in their keys, and inputs for the examples\<close>

text \<open>
  Two servers differ at most in \<^verbatim>\<open>HashKey\<close> and \<^verbatim>\<open>BlockKey\<close> when every other
  field of the struct is the same.
\<close>

definition same_but_keys :: "Server \<Rightarrow> Server \<Rightarrow> bool" where
  "same_but_keys s t =
     (ln s = ln t \<and> server s = server t \<and> router s = router t \<and>
      Addr s = Addr t \<and> Domain s = Domain t)"


definition os_free :: os where
  "os_free network address =
     (if address = '':443'' then Inr 443 else if address = '':8080'' then Inr 8080
      else Inr 49152)"

definition clock_done :: clock where
  "clock_done timeout = []"

definition post_with :: "string \<Rightarrow> Request" where
  "post_with v =
     \<lparr>Method = ''POST'', URL_Path = ''/items/7'', Header = Map.empty,
      PostForm = [''_method'' \<mapsto> [v]]\<rparr>"

definition get_with :: "string \<Rightarrow> Request" where
  "get_with v =
     \<lparr>Method = ''GET'', URL_Path = ''/items/7'', Header = Map.empty,
      PostForm = [''_method'' \<mapsto> [v]]\<rparr>"

definition get_path :: "string \<Rightarrow> Request" where
  "get_path p =
     \<lparr>Method = ''GET'', URL_Path = p,
      Header = [''Content-Type'' \<mapsto> [''text/plain'']], PostForm = Map.empty\<rparr>"

text \<open>
  A Server that serves on port 8080 with one request in flight, the world in which that
  request ends a given time after \<^verbatim>\<open>Close\<close> was called and leaves its connection
  idle, and a random source that always draws 0.
\<close>

definition serving :: Server where
  "serving =
     NewServer\<lparr>ln := Some (TCPListener 8080),
               server := \<lparr>inShutdown = False, listeners = [TCPListener 8080],
                          activeConn = [StateActive]\<rparr>,
               Addr := '':8080''\<rparr>"

definition busy_until :: "int \<Rightarrow> int \<Rightarrow> connState list" where
  "busy_until ends t = (if t < ends then [StateActive] else [StateIdle])"

definition no_jitter :: "nat \<Rightarrow> nat" where
  "no_jitter k = 0"

section \<open>Properties\<close>

subsection \<open>The extension of a path\<close>

lemma ext_scan_dot:
  "CHR ''.'' \<notin> set ys \<Longrightarrow> CHR ''/'' \<notin> set ys \<Longrightarrow>
   ext_scan (ys @ CHR ''.'' # zs) passed = CHR ''.'' # rev ys @ passed"
  by (induction ys arbitrary: passed) auto

lemma ext_scan_cases:
  "ext_scan xs passed = [] \<or>
   (\<exists>ys zs. xs = ys @ CHR ''.'' # zs \<and> CHR ''.'' \<notin> set ys \<and> CHR ''/'' \<notin> set ys \<and>
            ext_scan xs passed = CHR ''.'' # rev ys @ passed)"
proof (induction xs arbitrary: passed)
  case Nil
  show ?case by simp
next
  case (Cons c cs)
  show ?case
  proof (cases "c = CHR ''/''")
    case True
    then show ?thesis by simp
  next
    case slash: False
    show ?thesis
    proof (cases "c = CHR ''.''")
      case True
      then have "c # cs = [] @ CHR ''.'' # cs \<and>
          ext_scan (c # cs) passed = CHR ''.'' # rev [] @ passed"
        by simp
      then show ?thesis by (metis empty_iff list.set(1))
    next
      case dot: False
      from Cons.IH [of "c # passed"] show ?thesis
      proof
        assume "ext_scan cs (c # passed) = []"
        with slash dot show ?thesis by simp
      next
        assume "\<exists>ys zs. cs = ys @ CHR ''.'' # zs \<and> CHR ''.'' \<notin> set ys \<and>
                  CHR ''/'' \<notin> set ys \<and>
                  ext_scan cs (c # passed) = CHR ''.'' # rev ys @ c # passed"
        then obtain ys zs where h: "cs = ys @ CHR ''.'' # zs"
          "CHR ''.'' \<notin> set ys" "CHR ''/'' \<notin> set ys"
          "ext_scan cs (c # passed) = CHR ''.'' # rev ys @ c # passed" by blast
        with slash dot have "c # cs = (c # ys) @ CHR ''.'' # zs \<and>
            CHR ''.'' \<notin> set (c # ys) \<and> CHR ''/'' \<notin> set (c # ys) \<and>
            ext_scan (c # cs) passed = CHR ''.'' # rev (c # ys) @ passed"
          by simp
        then show ?thesis by blast
      qed
    qed
  qed
qed

lemma path_Ext_suffix: "suffix (path_Ext p) p"
proof -
  from ext_scan_cases [of "rev p" "[]"] show ?thesis
  proof
    assume "ext_scan (rev p) [] = []"
    then show ?thesis by (simp add: path_Ext_def)
  next
    assume "\<exists>ys zs. rev p = ys @ CHR ''.'' # zs \<and> CHR ''.'' \<notin> set ys \<and>
              CHR ''/'' \<notin> set ys \<and> ext_scan (rev p) [] = CHR ''.'' # rev ys @ []"
    then obtain ys zs where h: "rev p = ys @ CHR ''.'' # zs"
      "ext_scan (rev p) [] = CHR ''.'' # rev ys @ []"
      by blast
    from h(1) have "rev (rev p) = rev (ys @ CHR ''.'' # zs)" by simp
    then have "p = rev zs @ CHR ''.'' # rev ys" by simp
    with h(2) show ?thesis by (simp add: path_Ext_def suffix_def)
  qed
qed

lemma path_Ext_eq_iff:
  assumes "CHR ''.'' \<notin> set t" and "CHR ''/'' \<notin> set t"
  shows "path_Ext p = CHR ''.'' # t \<longleftrightarrow> suffix (CHR ''.'' # t) p"
proof
  assume "path_Ext p = CHR ''.'' # t"
  with path_Ext_suffix [of p] show "suffix (CHR ''.'' # t) p" by simp
next
  assume "suffix (CHR ''.'' # t) p"
  then obtain q where "p = q @ CHR ''.'' # t" by (auto simp: suffix_def)
  then have "rev p = rev t @ CHR ''.'' # rev q" by simp
  with assms show "path_Ext p = CHR ''.'' # t"
    by (simp add: path_Ext_def ext_scan_dot)
qed

lemma path_Ext_json: "path_Ext p = ''.json'' \<longleftrightarrow> suffix ''.json'' p"
  by (rule path_Ext_eq_iff) simp_all

lemma path_Ext_csv: "path_Ext p = ''.csv'' \<longleftrightarrow> suffix ''.csv'' p"
  by (rule path_Ext_eq_iff) simp_all

lemma TrimSuffix_append: "TrimSuffix (q @ e) e = q"
  by (simp add: TrimSuffix_def HasSuffix_def)

subsection \<open>Header keys\<close>

lemma canonical_Accept: "CanonicalMIMEHeaderKey ''Accept'' = ''Accept''"
  by code_simp

lemma canonical_Content_type: "CanonicalMIMEHeaderKey ''Content-type'' = ''Content-Type''"
  by code_simp

lemma Header_Set_Accept: "Header_Set h ''Accept'' v = h(''Accept'' \<mapsto> [v])"
  by (simp only: Header_Set_def canonical_Accept)

lemma Header_Set_Content_type: "Header_Set h ''Content-type'' v = h(''Content-Type'' \<mapsto> [v])"
  by (simp only: Header_Set_def canonical_Content_type)

subsection \<open>The two steps of the normalizer\<close>

lemma override_method_keeps:
  "URL_Path (override_method r) = URL_Path r"
  "Header (override_method r) = Header r"
  "PostForm (override_method r) = PostForm r"
  by (simp_all add: override_method_def Let_def)

lemma negotiate_ext_Method: "Method (negotiate_ext r) = Method r"
  by (simp add: negotiate_ext_def Let_def)

lemma negotiate_ext_json:
  assumes "suffix ''.json'' (URL_Path r)"
  shows "negotiate_ext r =
           r\<lparr>Header := (Header r)(''Accept'' \<mapsto> [''application/json''],
                                   ''Content-Type'' \<mapsto> [''application/json'']),
             URL_Path := TrimSuffix (URL_Path r) ''.json''\<rparr>"
proof -
  from assms have "path_Ext (URL_Path r) = ''.json''" by (simp only: path_Ext_json)
  then show ?thesis
    by (simp add: negotiate_ext_def Header_Set_Accept Header_Set_Content_type)
qed

lemma negotiate_ext_csv:
  assumes "suffix ''.csv'' (URL_Path r)"
  shows "negotiate_ext r =
           r\<lparr>Header := (Header r)(''Accept'' \<mapsto> [''text/csv'']),
             URL_Path := TrimSuffix (URL_Path r) ''.csv''\<rparr>"
proof -
  from assms have "path_Ext (URL_Path r) = ''.csv''" by (simp only: path_Ext_csv)
  then show ?thesis
    by (simp add: negotiate_ext_def Header_Set_Accept)
qed

lemma negotiate_ext_other:
  assumes "\<not> suffix ''.json'' (URL_Path r)" and "\<not> suffix ''.csv'' (URL_Path r)"
  shows "negotiate_ext r = r"
proof -
  from assms have "path_Ext (URL_Path r) \<noteq> ''.json''" "path_Ext (URL_Path r) \<noteq> ''.csv''"
    by (simp_all only: path_Ext_json path_Ext_csv not_False_eq_True)
  then show ?thesis by (simp add: negotiate_ext_def)
qed

lemma TrimSuffix_suffix: "suffix e p \<Longrightarrow> TrimSuffix p e @ e = p"
  by (auto simp: suffix_def TrimSuffix_append)

subsection \<open>Method override\<close>

text \<open>
  C1. The request that \<^verbatim>\<open>serveHTTP\<close> hands to the router has the method named by the
  form field \<^verbatim>\<open>_method\<close> when the request came in as POST and the field is one of GET,
  POST, PATCH and DELETE. With any other value of the field the method stays as it was,
  and so it does for every request that is not a POST. The value of the field is what
  \<^verbatim>\<open>PostFormValue\<close> returns: the first one, or the empty string without one.
\<close>

theorem method_override:
  "(Method r = ''POST'' \<and>
      PostFormValue r ''_method'' \<in> {''GET'', ''POST'', ''PATCH'', ''DELETE''} \<longrightarrow>
      Method (snd (serveHTTP s r)) = PostFormValue r ''_method'') \<and>
   (Method r = ''POST'' \<and>
      PostFormValue r ''_method'' \<notin> {''GET'', ''POST'', ''PATCH'', ''DELETE''} \<longrightarrow>
      Method (snd (serveHTTP s r)) = Method r) \<and>
   (Method r \<noteq> ''POST'' \<longrightarrow> Method (snd (serveHTTP s r)) = Method r)"
  by (simp add: serveHTTP_def negotiate_ext_Method override_method_def Let_def)

theorem method_override_witness:
  "Method (post_with ''DELETE'') = ''POST'' \<and>
   PostFormValue (post_with ''DELETE'') ''_method'' = ''DELETE'' \<and>
   Method (snd (serveHTTP NewServer (post_with ''DELETE''))) = ''DELETE'' \<and>
   Method (post_with ''PUT'') = ''POST'' \<and>
   PostFormValue (post_with ''PUT'') ''_method'' = ''PUT'' \<and>
   Method (snd (serveHTTP NewServer (post_with ''PUT''))) = ''POST'' \<and>
   Method (get_with ''DELETE'') \<noteq> ''POST'' \<and>
   Method (snd (serveHTTP NewServer (get_with ''DELETE''))) = ''GET''"
  using method_override [of "post_with ''DELETE''" NewServer]
    method_override [of "post_with ''PUT''" NewServer]
    method_override [of "get_with ''DELETE''" NewServer]
  by (simp add: post_with_def get_with_def PostFormValue_def)

subsection \<open>Content negotiation by suffix\<close>

text \<open>
  C2. When the path ends with \<^verbatim>\<open>.json\<close>, the request handed to the router has the
  Accept and the Content-Type header set to \<^verbatim>\<open>application/json\<close> and the path
  without that suffix. Otherwise, when the path ends with \<^verbatim>\<open>.csv\<close>, the Accept header
  is \<^verbatim>\<open>text/csv\<close>, the Content-Type header is the one that came in, and the path has
  lost the suffix. Otherwise path and header are those that came in.
\<close>

theorem suffix_negotiation:
  "(suffix ''.json'' (URL_Path r) \<longrightarrow>
      Header (snd (serveHTTP s r)) ''Accept'' = Some [''application/json''] \<and>
      Header (snd (serveHTTP s r)) ''Content-Type'' = Some [''application/json''] \<and>
      URL_Path (snd (serveHTTP s r)) @ ''.json'' = URL_Path r) \<and>
   (\<not> suffix ''.json'' (URL_Path r) \<and> suffix ''.csv'' (URL_Path r) \<longrightarrow>
      Header (snd (serveHTTP s r)) ''Accept'' = Some [''text/csv''] \<and>
      Header (snd (serveHTTP s r)) ''Content-Type'' = Header r ''Content-Type'' \<and>
      URL_Path (snd (serveHTTP s r)) @ ''.csv'' = URL_Path r) \<and>
   (\<not> suffix ''.json'' (URL_Path r) \<and> \<not> suffix ''.csv'' (URL_Path r) \<longrightarrow>
      URL_Path (snd (serveHTTP s r)) = URL_Path r \<and>
      Header (snd (serveHTTP s r)) = Header r)"
proof -
  let ?m = "override_method r"
  have out: "snd (serveHTTP s r) = negotiate_ext ?m" by (simp add: serveHTTP_def)
  have path: "URL_Path ?m = URL_Path r" and header: "Header ?m = Header r"
    by (rule override_method_keeps)+
  have json: "suffix ''.json'' (URL_Path r) \<Longrightarrow>
      Header (negotiate_ext ?m) ''Accept'' = Some [''application/json''] \<and>
      Header (negotiate_ext ?m) ''Content-Type'' = Some [''application/json''] \<and>
      URL_Path (negotiate_ext ?m) @ ''.json'' = URL_Path r"
  proof -
    assume a: "suffix ''.json'' (URL_Path r)"
    then have "suffix ''.json'' (URL_Path ?m)" by (simp only: path)
    from negotiate_ext_json [OF this] TrimSuffix_suffix [OF a] show ?thesis
      by (simp add: path)
  qed
  have csv: "suffix ''.csv'' (URL_Path r) \<Longrightarrow>
      Header (negotiate_ext ?m) ''Accept'' = Some [''text/csv''] \<and>
      Header (negotiate_ext ?m) ''Content-Type'' = Header r ''Content-Type'' \<and>
      URL_Path (negotiate_ext ?m) @ ''.csv'' = URL_Path r"
  proof -
    assume a: "suffix ''.csv'' (URL_Path r)"
    then have "suffix ''.csv'' (URL_Path ?m)" by (simp only: path)
    from negotiate_ext_csv [OF this] TrimSuffix_suffix [OF a] show ?thesis
      by (simp add: path header)
  qed
  have other: "\<not> suffix ''.json'' (URL_Path r) \<Longrightarrow> \<not> suffix ''.csv'' (URL_Path r) \<Longrightarrow>
      URL_Path (negotiate_ext ?m) = URL_Path r \<and> Header (negotiate_ext ?m) = Header r"
  proof -
    assume "\<not> suffix ''.json'' (URL_Path r)" and "\<not> suffix ''.csv'' (URL_Path r)"
    then have "\<not> suffix ''.json'' (URL_Path ?m)" and "\<not> suffix ''.csv'' (URL_Path ?m)"
      by (simp_all only: path not_False_eq_True)
    then have "negotiate_ext ?m = ?m" by (rule negotiate_ext_other)
    then show ?thesis by (simp only: path header)
  qed
  from json csv other show ?thesis unfolding out by blast
qed

theorem suffix_negotiation_witness:
  "suffix ''.json'' (URL_Path (get_path ''/report.json'')) \<and>
   URL_Path (snd (serveHTTP NewServer (get_path ''/report.json''))) @ ''.json'' = ''/report.json'' \<and>
   Header (snd (serveHTTP NewServer (get_path ''/report.json''))) ''Content-Type'' =
     Some [''application/json''] \<and>
   \<not> suffix ''.json'' (URL_Path (get_path ''/report.csv'')) \<and>
   suffix ''.csv'' (URL_Path (get_path ''/report.csv'')) \<and>
   URL_Path (snd (serveHTTP NewServer (get_path ''/report.csv''))) @ ''.csv'' = ''/report.csv'' \<and>
   Header (snd (serveHTTP NewServer (get_path ''/report.csv''))) ''Accept'' = Some [''text/csv''] \<and>
   Header (snd (serveHTTP NewServer (get_path ''/report.csv''))) ''Content-Type'' =
     Some [''text/plain''] \<and>
   \<not> suffix ''.json'' (URL_Path (get_path ''/report.xml'')) \<and>
   \<not> suffix ''.csv'' (URL_Path (get_path ''/report.xml'')) \<and>
   URL_Path (snd (serveHTTP NewServer (get_path ''/report.xml''))) = ''/report.xml''"
  using suffix_negotiation [of "get_path ''/report.json''" NewServer]
    suffix_negotiation [of "get_path ''/report.csv''" NewServer]
    suffix_negotiation [of "get_path ''/report.xml''" NewServer]
  by (simp add: get_path_def suffix_to_prefix)

lemma serveHTTP_json:
  assumes "URL_Path r = q @ ''.json''"
  shows "URL_Path (snd (serveHTTP s r)) = q \<and>
         Header (snd (serveHTTP s r)) ''Accept'' = Some [''application/json''] \<and>
         Header (snd (serveHTTP s r)) ''Content-Type'' = Some [''application/json'']"
proof -
  let ?m = "override_method r"
  from assms have p: "URL_Path ?m = q @ ''.json''" by (simp only: override_method_keeps)
  then have "suffix ''.json'' (URL_Path ?m)" by (simp only: suffix_def) blast
  from negotiate_ext_json [OF this] show ?thesis
    by (simp add: serveHTTP_def p TrimSuffix_append)
qed

text \<open>
  C10. The normalizer looks at the last extension only and takes at most one suffix
  off: the path that came in is the path handed on, followed by nothing, by
  \<^verbatim>\<open>.json\<close> or by \<^verbatim>\<open>.csv\<close>. A request for \<^verbatim>\<open>/report.json.json\<close> reaches the router as
  \<^verbatim>\<open>/report.json\<close> with the JSON headers, and that request is no fixed point: passed
  through the normalizer once more it would come out as \<^verbatim>\<open>/report\<close>.
\<close>

theorem one_suffix_per_request:
  "(URL_Path r = URL_Path (snd (serveHTTP s r)) \<or>
    URL_Path r = URL_Path (snd (serveHTTP s r)) @ ''.json'' \<or>
    URL_Path r = URL_Path (snd (serveHTTP s r)) @ ''.csv'') \<and>
   URL_Path (snd (serveHTTP s (r\<lparr>URL_Path := ''/report.json.json''\<rparr>))) = ''/report.json'' \<and>
   Header (snd (serveHTTP s (r\<lparr>URL_Path := ''/report.json.json''\<rparr>))) ''Accept'' =
     Some [''application/json''] \<and>
   Header (snd (serveHTTP s (r\<lparr>URL_Path := ''/report.json.json''\<rparr>))) ''Content-Type'' =
     Some [''application/json''] \<and>
   URL_Path (snd (serveHTTP s (snd (serveHTTP s (r\<lparr>URL_Path := ''/report.json.json''\<rparr>))))) =
     ''/report'' \<and>
   snd (serveHTTP s (snd (serveHTTP s (r\<lparr>URL_Path := ''/report.json.json''\<rparr>)))) \<noteq>
     snd (serveHTTP s (r\<lparr>URL_Path := ''/report.json.json''\<rparr>))"
proof -
  let ?m = "override_method r"
  have path: "URL_Path ?m = URL_Path r" by (rule override_method_keeps)
  have general: "URL_Path r = URL_Path (snd (serveHTTP s r)) \<or>
    URL_Path r = URL_Path (snd (serveHTTP s r)) @ ''.json'' \<or>
    URL_Path r = URL_Path (snd (serveHTTP s r)) @ ''.csv''"
  proof (cases "suffix ''.json'' (URL_Path ?m)")
    case True
    from negotiate_ext_json [OF True] TrimSuffix_suffix [OF True] show ?thesis
      by (simp add: serveHTTP_def path)
  next
    case nojson: False
    show ?thesis
    proof (cases "suffix ''.csv'' (URL_Path ?m)")
      case True
      from negotiate_ext_csv [OF True] TrimSuffix_suffix [OF True] show ?thesis
        by (simp add: serveHTTP_def path)
    next
      case False
      with nojson have "negotiate_ext ?m = ?m" by (rule negotiate_ext_other)
      then show ?thesis by (simp add: serveHTTP_def path)
    qed
  qed
  let ?r0 = "r\<lparr>URL_Path := ''/report.json.json''\<rparr>"
  let ?r1 = "snd (serveHTTP s ?r0)"
  have "URL_Path ?r0 = ''/report.json'' @ ''.json''" by simp
  from serveHTTP_json [OF this]
  have once: "URL_Path ?r1 = ''/report.json''"
    and hdr: "Header ?r1 ''Accept'' = Some [''application/json'']"
      "Header ?r1 ''Content-Type'' = Some [''application/json'']"
    by blast+
  from once have "URL_Path ?r1 = ''/report'' @ ''.json''" by simp
  from serveHTTP_json [OF this]
  have twice: "URL_Path (snd (serveHTTP s ?r1)) = ''/report''" by blast
  from twice once have differ: "snd (serveHTTP s ?r1) \<noteq> ?r1" by auto
  from general once hdr twice differ show ?thesis by blast
qed

theorem one_suffix_per_request_witness:
  "URL_Path (get_path ''/report.json.json'') =
     URL_Path (snd (serveHTTP NewServer (get_path ''/report.json.json''))) @ ''.json'' \<and>
   URL_Path (snd (serveHTTP NewServer (get_path ''/report.json.json''))) = ''/report.json'' \<and>
   URL_Path (snd (serveHTTP NewServer
     (snd (serveHTTP NewServer (get_path ''/report.json.json''))))) = ''/report''"
  using one_suffix_per_request [of "get_path ''/report.json.json''" NewServer]
  by (simp add: get_path_def)

subsection \<open>Scheme, port and URL\<close>

text \<open>
  C6. In every state of the Server, \<^verbatim>\<open>Scheme()\<close> is \<^verbatim>\<open>https\<close> exactly when
  \<^verbatim>\<open>Domain\<close> is not empty, and \<^verbatim>\<open>http\<close> when it is empty.
\<close>

theorem Scheme_by_Domain:
  "(Scheme s = ''https'' \<longleftrightarrow> Domain s \<noteq> '''') \<and> (Domain s = '''' \<longrightarrow> Scheme s = ''http'')"
  by (simp add: Scheme_def UseTLS_def)

theorem Scheme_by_Domain_witness:
  "Domain NewServer = '''' \<and> Scheme NewServer = ''http'' \<and>
   Domain (NewServer\<lparr>Domain := ''example.com''\<rparr>) \<noteq> '''' \<and>
   Scheme (NewServer\<lparr>Domain := ''example.com''\<rparr>) = ''https''"
  using Scheme_by_Domain [of NewServer]
    Scheme_by_Domain [of "NewServer\<lparr>Domain := ''example.com''\<rparr>"]
  by (simp add: NewServer_def)

text \<open>
  C7. In every state of the Server, \<^verbatim>\<open>URL()\<close> is the scheme, \<^verbatim>\<open>://\<close> and the host,
  which is \<^verbatim>\<open>Domain\<close> when that is not empty and \<^verbatim>\<open>localhost\<close> otherwise. Nothing
  follows when the scheme is \<^verbatim>\<open>http\<close> and the port 80, or the scheme \<^verbatim>\<open>https\<close> and the
  port 443; in every other case a colon and the port in decimal follow.
\<close>

theorem URL_composition:
  "((Scheme s = ''http'' \<and> Port s = 80) \<or> (Scheme s = ''https'' \<and> Port s = 443) \<longrightarrow>
      URL s = Scheme s @ ''://'' @ (if Domain s \<noteq> '''' then Domain s else ''localhost'')) \<and>
   (\<not> ((Scheme s = ''http'' \<and> Port s = 80) \<or> (Scheme s = ''https'' \<and> Port s = 443)) \<longrightarrow>
      URL s = Scheme s @ ''://'' @ (if Domain s \<noteq> '''' then Domain s else ''localhost'')
                @ '':'' @ fmt_d (Port s))"
  by (simp add: URL_def Let_def)

theorem URL_composition_witness:
  "URL (NewServer\<lparr>ln := Some (TCPListener 80)\<rparr>) = ''http://localhost'' \<and>
   URL (NewServer\<lparr>ln := Some (TCPListener 443)\<rparr>) = ''http://localhost:443'' \<and>
   URL (NewServer\<lparr>ln := Some (TCPListener 8080)\<rparr>) = ''http://localhost:8080'' \<and>
   URL (NewServer\<lparr>ln := Some (AutocertListener (Inr 443)), Domain := ''example.com''\<rparr>) =
     ''https://example.com'' \<and>
   URL (NewServer\<lparr>ln := Some (TCPListener 80), Domain := ''example.com''\<rparr>) =
     ''https://example.com:80''"
  using URL_composition [of "NewServer\<lparr>ln := Some (TCPListener 80)\<rparr>"]
    URL_composition [of "NewServer\<lparr>ln := Some (TCPListener 443)\<rparr>"]
    URL_composition [of "NewServer\<lparr>ln := Some (TCPListener 8080)\<rparr>"]
    URL_composition [of "NewServer\<lparr>ln := Some (AutocertListener (Inr 443)),
                                    Domain := ''example.com''\<rparr>"]
    URL_composition [of "NewServer\<lparr>ln := Some (TCPListener 80), Domain := ''example.com''\<rparr>"]
  by (simp add: NewServer_def Scheme_def UseTLS_def Port_def fmt_d_def fmt_digits.simps)

text \<open>
  C9. A Server without a listener and with an empty \<^verbatim>\<open>Domain\<close> reports port 0, and
  its \<^verbatim>\<open>URL()\<close> is \<^verbatim>\<open>http://localhost:0\<close>: 0 is neither 80 nor 443, so the port is
  written out.
\<close>

theorem URL_unopened:
  assumes "ln s = None" and "Domain s = ''''"
  shows "Port s = 0 \<and> URL s = ''http://localhost:0''"
  using assms
  by (simp add: URL_def Port_def Scheme_def UseTLS_def fmt_d_def fmt_digits.simps)

theorem URL_unopened_witness:
  "ln NewServer = None \<and> Domain NewServer = '''' \<and> Port NewServer = 0 \<and>
   URL NewServer = ''http://localhost:0''"
proof -
  have h1: "ln NewServer = None" and h2: "Domain NewServer = ''''"
    by (simp_all add: NewServer_def)
  from URL_unopened [OF h1 h2] h1 h2 show ?thesis by simp
qed

subsection \<open>Opening\<close>


text \<open>
  Without a \<^verbatim>\<open>Domain\<close>, \<^verbatim>\<open>Open\<close> returns the error of \<^verbatim>\<open>net.Listen("tcp", Addr)\<close>
  when the address is invalid or in use, starts nothing and leaves no listener; when
  the address can be bound it returns nil and starts the serving loop on the listener.
  With a \<^verbatim>\<open>Domain\<close> it takes the listener of \<^verbatim>\<open>autocert.NewListener\<close>, which comes
  without an error value and before any certificate has been asked for.
\<close>

lemma Open_result:
  "(Domain s = '''' \<longrightarrow>
      (\<forall>e. sys ''tcp'' (Addr s) = Inl e \<longrightarrow>
         Open sys s = (Some e, s\<lparr>ln := None\<rparr>, [])) \<and>
      (\<forall>p. sys ''tcp'' (Addr s) = Inr p \<longrightarrow>
         Open sys s = (None, s\<lparr>ln := Some (TCPListener p)\<rparr>, [go_Serve (TCPListener p)]))) \<and>
   (Domain s \<noteq> '''' \<longrightarrow>
      Open sys s =
        (None, s\<lparr>ln := Some (AutocertListener (sys ''tcp'' '':443''))\<rparr>,
         [go_Serve (AutocertListener (sys ''tcp'' '':443''))]))"
  by (simp add: Open_def Let_def net_Listen_def autocert_NewListener_def)

subsection \<open>Closing\<close>




lemma shutdown_wait_result:
  "fst (shutdown_wait lnerr conns ticks) =
     (if \<exists>c \<in> set (conns # ticks). list_all (\<lambda>st. st = StateIdle) c then lnerr
      else Some DeadlineExceeded)"
  by (induction ticks arbitrary: conns) (simp_all add: closeIdleConns_def)

lemma Close_result:
  "fst (Close s clock) =
     (if \<exists>c \<in> set (activeConn (server s) # clock ShutdownTimeout).
           list_all (\<lambda>st. st = StateIdle) c
      then closeListenersLocked (listeners (server s))
      else Some DeadlineExceeded)"
  by (simp add: Close_def Shutdown_def Let_def shutdown_wait_result)

lemma nextPollInterval_no_jitter: "nextPollInterval no_jitter k = pollIntervalBase k"
  by (simp add: nextPollInterval_def no_jitter_def)

lemma ticks_no_jitter:
  "ticks_from 1000000000 no_jitter 0 0 =
     [1000000, 3000000, 7000000, 15000000, 31000000, 63000000, 127000000, 255000000,
      511000000]"
  by (simp add: ticks_from.simps [of _ no_jitter] nextPollInterval_no_jitter
      shutdownPollIntervalMax_def)




text \<open>
  C5, as the code has it. \<^verbatim>\<open>ShutdownTimeout\<close> is exactly one second, and it is the
  deadline of the polls that \<^verbatim>\<open>Close\<close> makes. When closing the listeners gives no
  error, \<^verbatim>\<open>Close\<close> returns the deadline error if and only if neither the first poll
  nor any poll at a tick before that deadline finds every connection idle, and nil if
  and only if one of them does. What counts is what the polls see: a request that ends
  within the second but after the last poll before the deadline is not seen.
\<close>

theorem Close_deadline:
  assumes "closeListenersLocked (listeners (server s)) = None"
  shows "ShutdownTimeout = 1000000000 \<and>
         (fst (Close s clock) = Some DeadlineExceeded \<longleftrightarrow>
            \<not> (\<exists>c \<in> set (activeConn (server s) # clock ShutdownTimeout).
                  list_all (\<lambda>st. st = StateIdle) c)) \<and>
         (fst (Close s clock) = None \<longleftrightarrow>
            (\<exists>c \<in> set (activeConn (server s) # clock ShutdownTimeout).
                  list_all (\<lambda>st. st = StateIdle) c))"
  using assms by (simp add: Close_result ShutdownTimeout_def)

theorem Close_deadline_witness:
  "closeListenersLocked (listeners (server serving)) = None \<and>
   fst (Close serving (timer_clock (busy_until 200000000) no_jitter)) = None \<and>
   fst (Close serving clock_done) = Some DeadlineExceeded"
proof -
  have h: "closeListenersLocked (listeners (server serving)) = None"
    by (simp add: serving_def)
  have seen: "\<exists>c \<in> set (activeConn (server serving)
                  # timer_clock (busy_until 200000000) no_jitter ShutdownTimeout).
                list_all (\<lambda>st. st = StateIdle) c"
    by (simp add: timer_clock_def ShutdownTimeout_def ticks_no_jitter busy_until_def)
  have unseen: "\<not> (\<exists>c \<in> set (activeConn (server serving) # clock_done ShutdownTimeout).
                list_all (\<lambda>st. st = StateIdle) c)"
    by (simp add: clock_done_def serving_def)
  from Close_deadline [OF h, of "timer_clock (busy_until 200000000) no_jitter"]
    Close_deadline [OF h, of clock_done] h seen unseen
  show ?thesis by blast
qed

text \<open>
  The one request in flight ends 0.8 seconds after \<^verbatim>\<open>Close\<close> was called, well within
  \<^verbatim>\<open>ShutdownTimeout\<close>, and its connection is idle from then on. The last tick before
  the deadline comes at 0.511 seconds and the next would come after it, so no poll sees
  the idle connection and \<^verbatim>\<open>Close\<close> returns the deadline error.
\<close>

theorem Close_misses_drain_within_timeout:
  "activeConn (server serving) = [StateActive] \<and>
   busy_until 800000000 800000000 = [StateIdle] \<and>
   800000000 < ShutdownTimeout \<and>
   fst (Close serving (timer_clock (busy_until 800000000) no_jitter)) =
     Some DeadlineExceeded"
  by (simp add: Close_result timer_clock_def ShutdownTimeout_def ticks_no_jitter
      busy_until_def serving_def)

subsection \<open>The keys\<close>

lemma same_but_keys_update:
  "same_but_keys s t \<Longrightarrow> same_but_keys (s\<lparr>ln := l\<rparr>) (t\<lparr>ln := l\<rparr>)"
  "same_but_keys s t \<Longrightarrow> same_but_keys (s\<lparr>server := e\<rparr>) (t\<lparr>server := e\<rparr>)"
  by (simp_all add: same_but_keys_def)

text \<open>
  C8. Let two Servers agree in every field but \<^verbatim>\<open>HashKey\<close> and \<^verbatim>\<open>BlockKey\<close>. Then
  \<^verbatim>\<open>serveHTTP\<close> hands the same request to the same router, the handler prints the
  same, \<^verbatim>\<open>UseTLS\<close>, \<^verbatim>\<open>Port\<close>, \<^verbatim>\<open>Scheme\<close> and
  \<^verbatim>\<open>URL\<close> return the same, \<^verbatim>\<open>Open\<close> returns the same error and starts the same
  serving loop, \<^verbatim>\<open>Close\<close> returns the same error, and after \<^verbatim>\<open>Open\<close> and after
  \<^verbatim>\<open>Close\<close> the two Servers again agree in every field but the keys, which are the
  ones each had.
\<close>

theorem keys_not_read:
  assumes "same_but_keys s t"
  shows "serveHTTP s r = serveHTTP t r \<and>
         run_handler h s r = run_handler h t r \<and>
         UseTLS s = UseTLS t \<and>
         Port s = Port t \<and> Scheme s = Scheme t \<and> URL s = URL t \<and>
         fst (Open sys s) = fst (Open sys t) \<and>
         snd (snd (Open sys s)) = snd (snd (Open sys t)) \<and>
         same_but_keys (fst (snd (Open sys s))) (fst (snd (Open sys t))) \<and>
         HashKey (fst (snd (Open sys s))) = HashKey s \<and>
         BlockKey (fst (snd (Open sys s))) = BlockKey s \<and>
         fst (Close s clock) = fst (Close t clock) \<and>
         same_but_keys (snd (Close s clock)) (snd (Close t clock)) \<and>
         HashKey (snd (Close s clock)) = HashKey s \<and>
         BlockKey (snd (Close s clock)) = BlockKey s"
proof -
  from assms have eq: "ln s = ln t" "server s = server t" "router s = router t"
    "Addr s = Addr t" "Domain s = Domain t"
    by (simp_all add: same_but_keys_def)
  have serve: "serveHTTP s r = serveHTTP t r" by (simp add: serveHTTP_def eq)
  have handle: "run_handler h s r = run_handler h t r" by (cases h) simp
  have port: "Port s = Port t" by (simp add: Port_def eq)
  have tls: "UseTLS s = UseTLS t" by (simp add: UseTLS_def eq)
  have scheme: "Scheme s = Scheme t" by (simp add: Scheme_def UseTLS_def eq)
  have url: "URL s = URL t" by (simp add: URL_def Let_def port scheme eq)
  have open_err: "fst (Open sys s) = fst (Open sys t)"
    by (simp add: Open_def Let_def eq split: sum.splits)
  have open_go: "snd (snd (Open sys s)) = snd (snd (Open sys t))"
    by (simp add: Open_def Let_def eq split: sum.splits)
  have open_st: "same_but_keys (fst (snd (Open sys s))) (fst (snd (Open sys t)))"
    using assms by (simp add: Open_def Let_def eq same_but_keys_update split: sum.splits)
  have open_keys: "HashKey (fst (snd (Open sys s))) = HashKey s"
    "BlockKey (fst (snd (Open sys s))) = BlockKey s"
    by (simp_all add: Open_def Let_def split: sum.splits)
  have close_err: "fst (Close s clock) = fst (Close t clock)"
    by (simp add: Close_def Let_def eq)
  have close_st: "same_but_keys (snd (Close s clock)) (snd (Close t clock))"
    using assms by (simp add: Close_def Let_def eq same_but_keys_update)
  have close_keys: "HashKey (snd (Close s clock)) = HashKey s"
    "BlockKey (snd (Close s clock)) = BlockKey s"
    by (simp_all add: Close_def Let_def)
  from serve handle tls port scheme url open_err open_go open_st open_keys close_err close_st close_keys
  show ?thesis by blast
qed

theorem keys_not_read_witness:
  "same_but_keys NewServer (NewServer\<lparr>HashKey := ''0f1e'', BlockKey := ''2d3c''\<rparr>) \<and>
   NewServer \<noteq> NewServer\<lparr>HashKey := ''0f1e'', BlockKey := ''2d3c''\<rparr> \<and>
   URL NewServer = URL (NewServer\<lparr>HashKey := ''0f1e'', BlockKey := ''2d3c''\<rparr>) \<and>
   fst (Open os_free NewServer) =
     fst (Open os_free (NewServer\<lparr>HashKey := ''0f1e'', BlockKey := ''2d3c''\<rparr>)) \<and>
   fst (Close NewServer clock_done) =
     fst (Close (NewServer\<lparr>HashKey := ''0f1e'', BlockKey := ''2d3c''\<rparr>) clock_done)"
proof -
  have h: "same_but_keys NewServer (NewServer\<lparr>HashKey := ''0f1e'', BlockKey := ''2d3c''\<rparr>)"
    by (simp add: same_but_keys_def)
  have d: "NewServer \<noteq> NewServer\<lparr>HashKey := ''0f1e'', BlockKey := ''2d3c''\<rparr>"
    by (simp add: NewServer_def)
  from keys_not_read [OF h, where sys = os_free and clock = clock_done] h d
  show ?thesis by blast
qed

end
